theory Spec2Isabelle
  imports Main "HOL-Library.Sublist"
begin

section \<open>Data model (types/graph.ts)\<close>

text \<open>
  \<^verbatim>\<open>export type NodeType = 'person' | 'event' | 'location';\<close>
\<close>

datatype NodeType = Person | Event | Location

text \<open>
  \<^verbatim>\<open>interface GraphNode { id; name; type; val; color; metadata?; x?; y?; z?; fx?; fy?; fz? }\<close>

  The field \<open>id\<close> is written \<open>id'\<close> (HOL has a constant \<open>id\<close>) and the layout fields
  carry the prefix \<open>pos_\<close>, so that no one-letter constant is declared.  Numbers are
  carried as data only (no operation below computes with them) and are integers here;
  a metadata object is an association list from keys to values rendered as strings.
\<close>

record GraphNode =
  id' :: string
  name :: string
  type :: NodeType
  val :: int
  color :: string
  metadata :: "(string \<times> string) list option"
  pos_x :: "int option"
  pos_y :: "int option"
  pos_z :: "int option"
  pos_fx :: "int option"
  pos_fy :: "int option"
  pos_fz :: "int option"

text \<open>
  A link endpoint is \<^verbatim>\<open>string | GraphNode\<close>: the id of a node, or (after the renderer
  has resolved it) the node object itself.
\<close>

datatype endpoint = Id string | Ref GraphNode

record GraphLink =
  source :: endpoint
  target :: endpoint
  relationship :: string
  strength :: "int option"
  link_color :: "string option"

record GraphData =
  nodes :: "GraphNode list"
  links :: "GraphLink list"

text \<open>
  \<^verbatim>\<open>Partial<GraphNode>\<close>: every key may be absent (\<open>None\<close>).  For the keys that are
  optional in \<open>GraphNode\<close> a present key carries an entry of the field's own type.
\<close>

record GraphNodePartial =
  upd_id :: "string option"
  upd_name :: "string option"
  upd_type :: "NodeType option"
  upd_val :: "int option"
  upd_color :: "string option"
  upd_metadata :: "(string \<times> string) list option option"
  upd_x :: "int option option"
  upd_y :: "int option option"
  upd_z :: "int option option"
  upd_fx :: "int option option"
  upd_fy :: "int option option"
  upd_fz :: "int option option"

text \<open>The object spread \<^verbatim>\<open>{ ...n, ...updates }\<close>: keys present in \<open>updates\<close> win.\<close>

definition spread :: "GraphNode \<Rightarrow> GraphNodePartial \<Rightarrow> GraphNode" where
  "spread n u =
     \<lparr> id' = (case upd_id u of None \<Rightarrow> id' n | Some v \<Rightarrow> v),
       name = (case upd_name u of None \<Rightarrow> name n | Some v \<Rightarrow> v),
       type = (case upd_type u of None \<Rightarrow> type n | Some v \<Rightarrow> v),
       val = (case upd_val u of None \<Rightarrow> val n | Some v \<Rightarrow> v),
       color = (case upd_color u of None \<Rightarrow> color n | Some v \<Rightarrow> v),
       metadata = (case upd_metadata u of None \<Rightarrow> metadata n | Some v \<Rightarrow> v),
       pos_x = (case upd_x u of None \<Rightarrow> pos_x n | Some v \<Rightarrow> v),
       pos_y = (case upd_y u of None \<Rightarrow> pos_y n | Some v \<Rightarrow> v),
       pos_z = (case upd_z u of None \<Rightarrow> pos_z n | Some v \<Rightarrow> v),
       pos_fx = (case upd_fx u of None \<Rightarrow> pos_fx n | Some v \<Rightarrow> v),
       pos_fy = (case upd_fy u of None \<Rightarrow> pos_fy n | Some v \<Rightarrow> v),
       pos_fz = (case upd_fz u of None \<Rightarrow> pos_fz n | Some v \<Rightarrow> v) \<rparr>"

section \<open>The store (stores/graphStore.ts)\<close>

record GraphState =
  graphData :: GraphData
  selectedNode :: "GraphNode option"
  hoveredNode :: "GraphNode option"
  highlightedNodes :: "string set"
  highlightedLinks :: "string set"
  filterByType :: "NodeType option"
  searchQuery :: string
  isLoading :: bool
  error :: "string option"

definition initialState :: GraphState where
  "initialState =
     \<lparr> graphData = \<lparr> nodes = [], links = [] \<rparr>,
       selectedNode = None,
       hoveredNode = None,
       highlightedNodes = {},
       highlightedLinks = {},
       filterByType = None,
       searchQuery = [],
       isLoading = False,
       error = None \<rparr>"

text \<open>
  The expression \<^verbatim>\<open>typeof l.source === 'string' ? l.source : l.source.id\<close>,
  which the store and the component repeat at every comparison.
\<close>

fun endpointId :: "endpoint \<Rightarrow> string" where
  "endpointId (Id s) = s"
| "endpointId (Ref n) = id' n"

text \<open>
  Every action is \<^verbatim>\<open>set(partial)\<close>, which merges the given keys into the state and
  leaves the others: a record update.
\<close>

definition setGraphData :: "GraphData \<Rightarrow> GraphState \<Rightarrow> GraphState" where
  "setGraphData data st = st\<lparr>graphData := data\<rparr>"

definition addNode :: "GraphNode \<Rightarrow> GraphState \<Rightarrow> GraphState" where
  "addNode node st =
     st\<lparr>graphData := (graphData st)\<lparr>nodes := nodes (graphData st) @ [node]\<rparr>\<rparr>"

definition removeNode :: "string \<Rightarrow> GraphState \<Rightarrow> GraphState" where
  "removeNode nodeId st =
     st\<lparr>graphData :=
        \<lparr> nodes = filter (\<lambda>n. id' n \<noteq> nodeId) (nodes (graphData st)),
          links = filter (\<lambda>l. endpointId (source l) \<noteq> nodeId \<and> endpointId (target l) \<noteq> nodeId)
                    (links (graphData st)) \<rparr>\<rparr>"

definition updateNode :: "string \<Rightarrow> GraphNodePartial \<Rightarrow> GraphState \<Rightarrow> GraphState" where
  "updateNode nodeId updates st =
     st\<lparr>graphData := (graphData st)
        \<lparr>nodes := map (\<lambda>n. if id' n = nodeId then spread n updates else n)
                    (nodes (graphData st))\<rparr>\<rparr>"

definition addLink :: "GraphLink \<Rightarrow> GraphState \<Rightarrow> GraphState" where
  "addLink link st =
     st\<lparr>graphData := (graphData st)\<lparr>links := links (graphData st) @ [link]\<rparr>\<rparr>"

definition removeLink :: "string \<Rightarrow> string \<Rightarrow> GraphState \<Rightarrow> GraphState" where
  "removeLink sourceId targetId st =
     st\<lparr>graphData := (graphData st)
        \<lparr>links := filter
           (\<lambda>l. let src = endpointId (source l); tgt = endpointId (target l)
                in \<not> (src = sourceId \<and> tgt = targetId))
           (links (graphData st))\<rparr>\<rparr>"

definition setSelectedNode :: "GraphNode option \<Rightarrow> GraphState \<Rightarrow> GraphState" where
  "setSelectedNode node st = st\<lparr>selectedNode := node\<rparr>"

definition setHoveredNode :: "GraphNode option \<Rightarrow> GraphState \<Rightarrow> GraphState" where
  "setHoveredNode node st = st\<lparr>hoveredNode := node\<rparr>"

definition setHighlightedNodes :: "string list \<Rightarrow> GraphState \<Rightarrow> GraphState" where
  "setHighlightedNodes nodeIds st = st\<lparr>highlightedNodes := set nodeIds\<rparr>"

definition setHighlightedLinks :: "string list \<Rightarrow> GraphState \<Rightarrow> GraphState" where
  "setHighlightedLinks linkIds st = st\<lparr>highlightedLinks := set linkIds\<rparr>"

definition setFilterByType :: "NodeType option \<Rightarrow> GraphState \<Rightarrow> GraphState" where
  "setFilterByType t st = st\<lparr>filterByType := t\<rparr>"

definition setSearchQuery :: "string \<Rightarrow> GraphState \<Rightarrow> GraphState" where
  "setSearchQuery query st = st\<lparr>searchQuery := query\<rparr>"

definition setLoading :: "bool \<Rightarrow> GraphState \<Rightarrow> GraphState" where
  "setLoading loading st = st\<lparr>isLoading := loading\<rparr>"

definition setError :: "string option \<Rightarrow> GraphState \<Rightarrow> GraphState" where
  "setError e st = st\<lparr>error := e\<rparr>"

definition clearGraph :: "GraphState \<Rightarrow> GraphState" where
  "clearGraph st = st\<lparr>graphData := \<lparr> nodes = [], links = [] \<rparr>, selectedNode := None\<rparr>"

text \<open>
  \<open>getNeighbors\<close>: the two sets start empty and the body of the \<^verbatim>\<open>forEach\<close> runs once
  per link, in order.  The template string \<^verbatim>\<open>`${sourceId}-${targetId}`\<close> is a
  concatenation.
\<close>

record Neighbors =
  neighborNodes :: "string set"
  neighborLinks :: "string set"

definition linkIdentity :: "string \<Rightarrow> string \<Rightarrow> string" where
  "linkIdentity sourceId targetId = sourceId @ ''-'' @ targetId"

definition neighborsStep :: "string \<Rightarrow> GraphLink \<Rightarrow> Neighbors \<Rightarrow> Neighbors" where
  "neighborsStep nodeId link acc =
     (let sourceId = endpointId (source link); targetId = endpointId (target link)
      in if sourceId = nodeId then
           acc\<lparr>neighborNodes := insert targetId (neighborNodes acc),
               neighborLinks := insert (linkIdentity sourceId targetId) (neighborLinks acc)\<rparr>
         else if targetId = nodeId then
           acc\<lparr>neighborNodes := insert sourceId (neighborNodes acc),
               neighborLinks := insert (linkIdentity sourceId targetId) (neighborLinks acc)\<rparr>
         else acc)"

definition getNeighbors :: "GraphState \<Rightarrow> string \<Rightarrow> Neighbors" where
  "getNeighbors st nodeId =
     fold (neighborsStep nodeId) (links (graphData st))
       \<lparr> neighborNodes = {}, neighborLinks = {} \<rparr>"

section \<open>The derived filtered view (components/Graph3D.tsx)\<close>

text \<open>
  \<^verbatim>\<open>String.prototype.toLowerCase\<close> belongs to the language runtime, not to this
  repository, and lowers every cased letter of Unicode.  It is not defined here: the view
  takes it as the parameter \<open>toLowerCase\<close>, and what is proved of the view holds for every
  case mapping.  \<^verbatim>\<open>s.includes(q)\<close> holds when \<open>q\<close> starts at some position of \<open>s\<close>;
  it compares the characters of the two strings for equality and nothing more.
\<close>

fun str_includes :: "string \<Rightarrow> string \<Rightarrow> bool" where
  "str_includes [] q = (q = [])"
| "str_includes (c # s) q = (prefix q (c # s) \<or> str_includes s q)"

text \<open>
  The closure both branches pass to \<^verbatim>\<open>links.filter\<close>, with
  \<^verbatim>\<open>nodeIds = new Set(nodes.map((n) => n.id))\<close>.
\<close>

definition bothEndpointsIn :: "GraphNode list \<Rightarrow> GraphLink \<Rightarrow> bool" where
  "bothEndpointsIn ns link =
     (let nodeIds = set (map id' ns);
          sourceId = endpointId (source link);
          targetId = endpointId (target link)
      in sourceId \<in> nodeIds \<and> targetId \<in> nodeIds)"

text \<open>
  \<^verbatim>\<open>if (filterByType)\<close> is taken when the filter is not null (the three type names
  are non-empty strings); \<^verbatim>\<open>if (searchQuery)\<close> is taken when the query is not the
  empty string.
\<close>

definition filteredData :: "(string \<Rightarrow> string) \<Rightarrow> GraphState \<Rightarrow> GraphData" where
  "filteredData toLowerCase st =
     (let nodes0 = nodes (graphData st);
          links0 = links (graphData st);
          (nodes1, links1) =
            (case filterByType st of
               Some t \<Rightarrow>
                 (let ns = filter (\<lambda>node. type node = t) nodes0
                  in (ns, filter (bothEndpointsIn ns) links0))
             | None \<Rightarrow> (nodes0, links0));
          (nodes2, links2) =
            (if searchQuery st \<noteq> [] then
               (let ns = filter (\<lambda>node. str_includes (toLowerCase (name node))
                                          (toLowerCase (searchQuery st))) nodes1
                in (ns, filter (bothEndpointsIn ns) links1))
             else (nodes1, links1))
      in \<lparr> nodes = nodes2, links = links2 \<rparr>)"

text \<open>
  The two steps of the view as the specification words them, each a function on a
  snapshot, for comparison with \<open>filteredData\<close>: step 1 keeps the nodes of the given type
  and the links with both endpoints among them; step 2 keeps the nodes whose name contains
  the query, ignoring case, and the links with both endpoints among them.  "Ignoring
  case" is: after the case mapping \<open>lower\<close>, which is a parameter here as well.
\<close>

definition spec_typeFilter :: "NodeType option \<Rightarrow> GraphData \<Rightarrow> GraphData" where
  "spec_typeFilter ft g =
     (case ft of
        None \<Rightarrow> g
      | Some t \<Rightarrow>
          \<lparr> nodes = [n \<leftarrow> nodes g. type n = t],
            links = [l \<leftarrow> links g.
                       endpointId (source l) \<in> id' ` {n \<in> set (nodes g). type n = t} \<and>
                       endpointId (target l) \<in> id' ` {n \<in> set (nodes g). type n = t}] \<rparr>)"

definition spec_nameMatches :: "(string \<Rightarrow> string) \<Rightarrow> string \<Rightarrow> GraphNode \<Rightarrow> bool" where
  "spec_nameMatches lower q n = sublist (lower q) (lower (name n))"

definition spec_searchFilter :: "(string \<Rightarrow> string) \<Rightarrow> string \<Rightarrow> GraphData \<Rightarrow> GraphData" where
  "spec_searchFilter lower q g =
     (if q = [] then g
      else \<lparr> nodes = [n \<leftarrow> nodes g. spec_nameMatches lower q n],
             links = [l \<leftarrow> links g.
                        endpointId (source l)
                          \<in> id' ` {n \<in> set (nodes g). spec_nameMatches lower q n} \<and>
                        endpointId (target l)
                          \<in> id' ` {n \<in> set (nodes g). spec_nameMatches lower q n}] \<rparr>)"

section \<open>The gateway (lib/api.ts, graphApi.getGraph)\<close>

text \<open>
  One row of \<^verbatim>\<open>response.data.results\<close>: the bindings \<open>n\<close>, \<open>r\<close>, \<open>m\<close> of the query, each
  an object or null.  Of a node the code reads \<open>name\<close>, \<open>description\<close> and \<open>category\<close>; of a
  relationship it reads \<open>type\<close>, which may be missing.
\<close>

record DbNode =
  db_name :: string
  db_description :: string
  db_category :: string

record DbRel =
  rel_type :: "string option"

record CypherRecord =
  rec_n :: "DbNode option"
  rec_r :: "DbRel option"
  rec_m :: "DbNode option"

text \<open>A rejected promise carries its reason.\<close>

datatype exn = RequestFailed string

fun NODE_COLORS :: "NodeType \<Rightarrow> string" where
  "NODE_COLORS Person = ''#3B82F6''"
| "NODE_COLORS Event = ''#10B981''"
| "NODE_COLORS Location = ''#EF4444''"

definition nodeTypeOf :: "string \<Rightarrow> NodeType" where
  "nodeTypeOf category =
     (if category = ''Event'' then Event
      else if category = ''Date'' then Event
      else if category = ''Location'' then Location
      else if category = ''Person'' then Person
      else Event)"

definition toGraphNode :: "DbNode \<Rightarrow> GraphNode" where
  "toGraphNode d =
     (let nodeType = nodeTypeOf (db_category d)
      in \<lparr> id' = db_name d,
           name = db_name d,
           type = nodeType,
           val = 1,
           color = NODE_COLORS nodeType,
           metadata = Some [(''description'', db_description d), (''category'', db_category d)],
           pos_x = None, pos_y = None, pos_z = None,
           pos_fx = None, pos_fy = None, pos_fz = None \<rparr>)"

text \<open>
  The three locals of \<open>getGraph\<close>.  \<open>nodes\<close> is a \<^verbatim>\<open>Map\<close>, which keeps its keys in
  insertion order: an association list, where \<^verbatim>\<open>set\<close> on a new key appends and on an
  old key replaces in place.
\<close>

record Ingest =
  nodeMap :: "(string \<times> GraphNode) list"
  linkList :: "GraphLink list"
  linkSet :: "string set"

definition map_has :: "(string \<times> GraphNode) list \<Rightarrow> string \<Rightarrow> bool" where
  "map_has mp k = (k \<in> set (map fst mp))"

definition map_set :: "(string \<times> GraphNode) list \<Rightarrow> string \<Rightarrow> GraphNode \<Rightarrow> (string \<times> GraphNode) list" where
  "map_set mp k v =
     (if map_has mp k then map (\<lambda>(k', v'). if k' = k then (k', v) else (k', v')) mp
      else mp @ [(k, v)])"

definition addDbNode :: "DbNode option \<Rightarrow> Ingest \<Rightarrow> Ingest" where
  "addDbNode d acc =
     (case d of
        Some dn \<Rightarrow>
          if \<not> map_has (nodeMap acc) (db_name dn)
          then acc\<lparr>nodeMap := map_set (nodeMap acc) (db_name dn) (toGraphNode dn)\<rparr>
          else acc
      | None \<Rightarrow> acc)"

definition relationshipOf :: "DbRel \<Rightarrow> string" where
  "relationshipOf rel =
     (case rel_type rel of
        Some t \<Rightarrow> if t \<noteq> [] then t else ''RELATED_TO''
      | None \<Rightarrow> ''RELATED_TO'')"

definition addDbLink :: "CypherRecord \<Rightarrow> Ingest \<Rightarrow> Ingest" where
  "addDbLink rc acc =
     (case (rec_r rc, rec_n rc, rec_m rc) of
        (Some rel, Some dn, Some dm) \<Rightarrow>
          (let linkId = db_name dn @ ''-'' @ db_name dm;
               reverseLinkId = db_name dm @ ''-'' @ db_name dn
           in if linkId \<notin> linkSet acc \<and> reverseLinkId \<notin> linkSet acc
              then acc\<lparr>linkList := linkList acc @
                          [\<lparr> source = Id (db_name dn),
                             target = Id (db_name dm),
                             relationship = relationshipOf rel,
                             strength = Some 1,
                             link_color = None \<rparr>],
                        linkSet := insert linkId (linkSet acc)\<rparr>
              else acc)
      | _ \<Rightarrow> acc)"

definition processRecord :: "CypherRecord \<Rightarrow> Ingest \<Rightarrow> Ingest" where
  "processRecord rc acc = addDbLink rc (addDbNode (rec_m rc) (addDbNode (rec_n rc) acc))"

definition ingest :: "CypherRecord list \<Rightarrow> Ingest" where
  "ingest results = fold processRecord results \<lparr> nodeMap = [], linkList = [], linkSet = {} \<rparr>"

text \<open>
  \<open>getGraph\<close> takes how the request settled: rejected, or fulfilled with
  \<^verbatim>\<open>response.data.results\<close> (which may be missing).  Its whole body is guarded by
  \<^verbatim>\<open>catch (error) { ...; return { nodes: [], links: [] }; }\<close>, so the promise it
  returns is always fulfilled (\<open>Inr\<close>).
\<close>

definition getGraph :: "exn + CypherRecord list option \<Rightarrow> exn + GraphData" where
  "getGraph response =
     (case response of
        Inr results \<Rightarrow>
          (let acc = (case results of Some rs \<Rightarrow> ingest rs | None \<Rightarrow> ingest [])
           in Inr \<lparr> nodes = map snd (nodeMap acc), links = linkList acc \<rparr>)
      | Inl e \<Rightarrow> Inr \<lparr> nodes = [], links = [] \<rparr>)"

section \<open>The load call site (app/page.tsx)\<close>

text \<open>
  \<^verbatim>\<open>setLoading(true)\<close>; then, guarded, \<^verbatim>\<open>data = await ...; setGraphData(data)\<close>;
  the handler \<^verbatim>\<open>catch { setError('Failed to load graph data') }\<close>; and the finalizer
  \<^verbatim>\<open>finally { setLoading(false) }\<close>: as a function of how the awaited promise settled.
\<close>

definition loadGraphData_settled :: "exn + GraphData \<Rightarrow> GraphState \<Rightarrow> GraphState" where
  "loadGraphData_settled settled st =
     (let st1 = setLoading True st;
          st2 = (case settled of
                   Inr data \<Rightarrow> setGraphData data st1
                 | Inl e \<Rightarrow> setError (Some ''Failed to load graph data'') st1)
      in setLoading False st2)"

text \<open>The awaited promise is the one \<open>graphApi.getGraph()\<close> returns.\<close>

definition loadGraphData :: "exn + CypherRecord list option \<Rightarrow> GraphState \<Rightarrow> GraphState" where
  "loadGraphData response st = loadGraphData_settled (getGraph response) st"

section \<open>Specification vocabulary and example states\<close>

text \<open>
  "The prior sequence minus every element that satisfies \<open>P\<close>, the others retained in
  order", written out by recursion on the sequence.
\<close>

fun seq_without :: "('a \<Rightarrow> bool) \<Rightarrow> 'a list \<Rightarrow> 'a list" where
  "seq_without P [] = []"
| "seq_without P (x # xs) = (if P x then seq_without P xs else x # seq_without P xs)"

definition mkNode :: "string \<Rightarrow> string \<Rightarrow> NodeType \<Rightarrow> GraphNode" where
  "mkNode i nm t =
     \<lparr> id' = i, name = nm, type = t, val = 1, color = NODE_COLORS t, metadata = None,
       pos_x = None, pos_y = None, pos_z = None, pos_fx = None, pos_fy = None, pos_fz = None \<rparr>"

definition mkLink :: "endpoint \<Rightarrow> endpoint \<Rightarrow> GraphLink" where
  "mkLink s t =
     \<lparr> source = s, target = t, relationship = ''KNOWS'', strength = None, link_color = None \<rparr>"

text \<open>A self-link on \<open>a\<close>, stored by id.\<close>

definition selfLink :: GraphLink where
  "selfLink = mkLink (Id ''a'') (Id ''a'')"

definition selfLinkState :: GraphState where
  "selfLinkState = addLink selfLink (addNode (mkNode ''a'' ''Ann'' Person) initialState)"

text \<open>
  Two nodes linked in both directions: \<open>a \<rightarrow> b\<close> stored by id, \<open>b \<rightarrow> a\<close> with its source
  resolved to the node object.
\<close>

definition linkAB :: GraphLink where
  "linkAB = mkLink (Id ''a'') (Id ''b'')"

definition linkBA :: GraphLink where
  "linkBA = mkLink (Ref (mkNode ''b'' ''Bob'' Person)) (Id ''a'')"

definition twoWayState :: GraphState where
  "twoWayState =
     addLink linkBA (addLink linkAB
       (addNode (mkNode ''b'' ''Bob'' Person) (addNode (mkNode ''a'' ''Ann'' Person) initialState)))"

text \<open>
  One case mapping, for running the view on examples: the letters A to Z are lowered and
  every other character is left as it is.  On names and queries made of ASCII characters
  it agrees with the runtime's mapping; it is an instance of the parameter, not the model
  of it.
\<close>

definition asciiLowerChar :: "char \<Rightarrow> char" where
  "asciiLowerChar c =
     (let k = (of_char c :: nat) in if 65 \<le> k \<and> k \<le> 90 then char_of (k + 32) else c)"

definition asciiLowerCase :: "string \<Rightarrow> string" where
  "asciiLowerCase s = map asciiLowerChar s"

text \<open>The two nodes of the filter example, and the store after the three calls.\<close>

definition aliceNode :: GraphNode where
  "aliceNode = mkNode ''1'' ''Alice'' Person"

definition fairNode :: GraphNode where
  "fairNode = mkNode ''2'' ''Alicetown Fair'' Event"

definition aliceState :: GraphState where
  "aliceState =
     setSearchQuery ''alice'' (setFilterByType (Some Person)
       (setGraphData \<lparr> nodes = [aliceNode, fairNode], links = [] \<rparr> initialState))"

text \<open>An update that sets the \<open>id\<close> key and nothing else.\<close>

definition renameTo :: "string \<Rightarrow> GraphNodePartial" where
  "renameTo b =
     \<lparr> upd_id = Some b, upd_name = None, upd_type = None, upd_val = None, upd_color = None,
       upd_metadata = None, upd_x = None, upd_y = None, upd_z = None,
       upd_fx = None, upd_fy = None, upd_fz = None \<rparr>"

text \<open>The unordered pair of node names a link joins.\<close>

definition namePair :: "GraphLink \<Rightarrow> string set" where
  "namePair l = {endpointId (source l), endpointId (target l)}"

text \<open>
  The invariant of the ingestion loop: the links collected so far join pairwise different
  unordered pairs, and the identity string of each of them is in \<open>linkSet\<close>.
\<close>

definition ingest_inv :: "Ingest \<Rightarrow> bool" where
  "ingest_inv acc \<longleftrightarrow>
     distinct (map namePair (linkList acc)) \<and>
     (\<lambda>l. endpointId (source l) @ ''-'' @ endpointId (target l)) ` set (linkList acc)
       \<subseteq> linkSet acc"

text \<open>
  Three rows of a response: the same relationship seen from \<open>Ann\<close>, seen from \<open>Fair\<close>,
  and seen from \<open>Ann\<close> again.
\<close>

definition dbAnn :: DbNode where
  "dbAnn = \<lparr> db_name = ''Ann'', db_description = ''a person'', db_category = ''Person'' \<rparr>"

definition dbFair :: DbNode where
  "dbFair = \<lparr> db_name = ''Fair'', db_description = ''a fair'', db_category = ''Event'' \<rparr>"

definition exampleRows :: "CypherRecord list" where
  "exampleRows =
     [ \<lparr> rec_n = Some dbAnn, rec_r = Some \<lparr> rel_type = Some ''ATTENDED'' \<rparr>, rec_m = Some dbFair \<rparr>,
       \<lparr> rec_n = Some dbFair, rec_r = Some \<lparr> rel_type = Some ''ATTENDED'' \<rparr>, rec_m = Some dbAnn \<rparr>,
       \<lparr> rec_n = Some dbAnn, rec_r = Some \<lparr> rel_type = None \<rparr>, rec_m = Some dbFair \<rparr> ]"

section \<open>Facts about the helpers\<close>

lemma seq_without_filter: "seq_without P xs = filter (\<lambda>x. \<not> P x) xs"
  by (induction xs) simp_all

lemma set_seq_without: "set (seq_without P xs) = {x \<in> set xs. \<not> P x}"
  by (simp add: seq_without_filter)

lemma subseq_seq_without: "subseq (seq_without P xs) xs"
  by (simp add: seq_without_filter)

lemma twoWayState_links: "links (graphData twoWayState) = [linkAB, linkBA]"
  by (simp add: twoWayState_def addLink_def addNode_def initialState_def)

lemma selfLinkState_links: "links (graphData selfLinkState) = [selfLink]"
  by (simp add: selfLinkState_def addLink_def addNode_def initialState_def)

lemma linkAB_ends: "endpointId (source linkAB) = ''a''" "endpointId (target linkAB) = ''b''"
  by (simp_all add: linkAB_def mkLink_def)

lemma linkBA_ends: "endpointId (source linkBA) = ''b''" "endpointId (target linkBA) = ''a''"
  by (simp_all add: linkBA_def mkLink_def mkNode_def)

lemma selfLink_ends: "endpointId (source selfLink) = ''a''" "endpointId (target selfLink) = ''a''"
  by (simp_all add: selfLink_def mkLink_def)

section \<open>removeNode\<close>

text \<open>
  C1. For every state and every id, after \<open>removeNode\<close> the node sequence is the prior one
  minus every node with that id, and the link sequence is the prior one minus exactly the
  links whose source id or target id (each endpoint normalised by \<open>endpointId\<close>) is that
  id; everything else is retained in order.
\<close>

theorem removeNode_exact:
  "nodes (graphData (removeNode nodeId st)) =
     seq_without (\<lambda>n. id' n = nodeId) (nodes (graphData st)) \<and>
   links (graphData (removeNode nodeId st)) =
     seq_without (\<lambda>l. endpointId (source l) = nodeId \<or> endpointId (target l) = nodeId)
       (links (graphData st))"
  by (simp add: removeNode_def seq_without_filter)

section \<open>getNeighbors\<close>

text \<open>What the scan has collected after any number of links, from any starting sets.\<close>

lemma neighborNodes_fold:
  "neighborNodes (fold (neighborsStep a) ls acc) =
     neighborNodes acc
     \<union> {endpointId (target l) | l. l \<in> set ls \<and> endpointId (source l) = a}
     \<union> {endpointId (source l) | l.
          l \<in> set ls \<and> endpointId (source l) \<noteq> a \<and> endpointId (target l) = a}"
proof (induction ls arbitrary: acc)
  case Nil
  show ?case by simp
next
  case (Cons l ls)
  show ?case
    unfolding fold_Cons o_apply Cons.IH
    by (auto simp: neighborsStep_def Let_def)
qed

lemma neighborLinks_fold:
  "neighborLinks (fold (neighborsStep a) ls acc) =
     neighborLinks acc
     \<union> (\<lambda>l. linkIdentity (endpointId (source l)) (endpointId (target l))) `
          {l \<in> set ls. endpointId (source l) = a \<or> endpointId (target l) = a}"
proof (induction ls arbitrary: acc)
  case Nil
  show ?case by simp
next
  case (Cons l ls)
  have split: "{k \<in> set (l # ls). endpointId (source k) = a \<or> endpointId (target k) = a} =
      (if endpointId (source l) = a \<or> endpointId (target l) = a then {l} else {})
      \<union> {k \<in> set ls. endpointId (source k) = a \<or> endpointId (target k) = a}"
    by auto
  show ?case
    unfolding fold_Cons o_apply Cons.IH split
    by (simp add: neighborsStep_def Let_def image_Un Un_assoc)
qed

lemma neighborNodes_getNeighbors:
  "b \<in> neighborNodes (getNeighbors st a) \<longleftrightarrow>
     (\<exists>l \<in> set (links (graphData st)).
        (endpointId (source l) = a \<and> endpointId (target l) = b) \<or>
        (endpointId (source l) = b \<and> endpointId (target l) = a))"
  unfolding getNeighbors_def neighborNodes_fold by auto

lemma neighborLinks_getNeighbors:
  "neighborLinks (getNeighbors st a) =
     (\<lambda>l. linkIdentity (endpointId (source l)) (endpointId (target l))) `
       {l \<in> set (links (graphData st)). endpointId (source l) = a \<or> endpointId (target l) = a}"
  unfolding getNeighbors_def neighborLinks_fold by simp

text \<open>
  C2. \<open>getNeighbors\<close> is symmetric: if \<open>B\<close> is in the node set of \<open>getNeighbors A\<close> then
  \<open>A\<close> is in the node set of \<open>getNeighbors B\<close>, whatever the direction of the link and
  whichever way its endpoints are stored.
\<close>

theorem getNeighbors_symmetric:
  "B \<in> neighborNodes (getNeighbors st A) \<Longrightarrow> A \<in> neighborNodes (getNeighbors st B)"
  unfolding neighborNodes_getNeighbors by blast

theorem getNeighbors_symmetric_witness:
  "''b'' \<in> neighborNodes (getNeighbors twoWayState ''a'') \<and>
   ''a'' \<in> neighborNodes (getNeighbors twoWayState ''b'')"
proof -
  have h: "''b'' \<in> neighborNodes (getNeighbors twoWayState ''a'')"
    by (simp add: getNeighbors_def twoWayState_links neighborsStep_def linkAB_ends linkBA_ends Let_def)
  from h getNeighbors_symmetric [OF h] show ?thesis by simp
qed

text \<open>
  C7. If the graph contains a self-link, both of whose endpoints normalise to \<open>nodeId\<close>,
  then \<open>getNeighbors nodeId\<close> has \<open>nodeId\<close> itself in its node set and the identity string
  \<open>nodeId-nodeId\<close> in its link set.
\<close>

theorem getNeighbors_self_link:
  assumes "l \<in> set (links (graphData st))"
    and "endpointId (source l) = nodeId"
    and "endpointId (target l) = nodeId"
  shows "nodeId \<in> neighborNodes (getNeighbors st nodeId) \<and>
         nodeId @ ''-'' @ nodeId \<in> neighborLinks (getNeighbors st nodeId)"
proof
  show "nodeId \<in> neighborNodes (getNeighbors st nodeId)"
    unfolding neighborNodes_getNeighbors using assms by blast
  have "linkIdentity (endpointId (source l)) (endpointId (target l))
          \<in> neighborLinks (getNeighbors st nodeId)"
    unfolding neighborLinks_getNeighbors using assms by blast
  then show "nodeId @ ''-'' @ nodeId \<in> neighborLinks (getNeighbors st nodeId)"
    using assms by (simp add: linkIdentity_def)
qed

theorem getNeighbors_self_link_witness:
  "selfLink \<in> set (links (graphData selfLinkState)) \<and>
   endpointId (source selfLink) = ''a'' \<and> endpointId (target selfLink) = ''a'' \<and>
   ''a'' \<in> neighborNodes (getNeighbors selfLinkState ''a'') \<and>
   ''a-a'' \<in> neighborLinks (getNeighbors selfLinkState ''a'')"
proof -
  have h1: "selfLink \<in> set (links (graphData selfLinkState))"
    by (simp add: selfLinkState_links)
  from getNeighbors_self_link [OF h1 selfLink_ends] h1 selfLink_ends
  show ?thesis by simp
qed

section \<open>clearGraph\<close>

text \<open>
  C4. \<open>clearGraph\<close> sets the graph to the empty snapshot and \<open>selectedNode\<close> to none, and
  leaves \<open>hoveredNode\<close>, \<open>highlightedNodes\<close>, \<open>highlightedLinks\<close>, \<open>filterByType\<close> and
  \<open>searchQuery\<close> as they were.
\<close>

theorem clearGraph_frame:
  "graphData (clearGraph st) = \<lparr> nodes = [], links = [] \<rparr> \<and>
   selectedNode (clearGraph st) = None \<and>
   hoveredNode (clearGraph st) = hoveredNode st \<and>
   highlightedNodes (clearGraph st) = highlightedNodes st \<and>
   highlightedLinks (clearGraph st) = highlightedLinks st \<and>
   filterByType (clearGraph st) = filterByType st \<and>
   searchQuery (clearGraph st) = searchQuery st"
  by (simp add: clearGraph_def)

section \<open>The derived filtered view\<close>

lemma str_includes_sublist: "str_includes s q \<longleftrightarrow> sublist q s"
  by (induction s) (simp_all add: sublist_Cons_right)

lemma bothEndpointsIn_iff:
  "bothEndpointsIn ns l \<longleftrightarrow>
     endpointId (source l) \<in> id' ` set ns \<and> endpointId (target l) \<in> id' ` set ns"
  by (simp add: bothEndpointsIn_def)

lemma filteredData_sequential:
  "filteredData lower st =
     spec_searchFilter lower (searchQuery st) (spec_typeFilter (filterByType st) (graphData st))"
proof (cases "filterByType st")
  case None
  then show ?thesis
    by (simp add: filteredData_def spec_searchFilter_def spec_typeFilter_def
        spec_nameMatches_def str_includes_sublist bothEndpointsIn_iff Let_def cong: filter_cong)
next
  case (Some t)
  then show ?thesis
    by (simp add: filteredData_def spec_searchFilter_def spec_typeFilter_def
        spec_nameMatches_def str_includes_sublist bothEndpointsIn_iff Let_def cong: filter_cong)
qed

lemma asciiLower_Alice: "asciiLowerCase ''Alice'' = ''alice''"
  by code_simp

lemma asciiLower_alice: "asciiLowerCase ''alice'' = ''alice''"
  by code_simp

text \<open>
  C3. For every case mapping, the view is the search step applied to the result of the
  type step, each step pruning the links against the nodes it has kept; and for the nodes
  \<open>1\<close> (person, Alice) and \<open>2\<close> (event, Alicetown Fair) with no links, the type filter
  \<open>person\<close> and the query \<open>alice\<close> give exactly node \<open>1\<close>, for every case mapping that
  sends \<open>Alice\<close> and \<open>alice\<close> to \<open>alice\<close>, as the runtime's does.  The name of node \<open>2\<close> is
  never looked at, and the fields the example leaves open are arbitrary.
\<close>

theorem filteredData_composition:
  "filteredData lower st =
     spec_searchFilter lower (searchQuery st) (spec_typeFilter (filterByType st) (graphData st)) \<and>
   (lower ''Alice'' = ''alice'' \<longrightarrow> lower ''alice'' = ''alice'' \<longrightarrow>
    filteredData lower
      (setSearchQuery ''alice'' (setFilterByType (Some Person)
         (setGraphData
            \<lparr> nodes = [a\<lparr>id' := ''1'', type := Person, name := ''Alice''\<rparr>,
                        b\<lparr>id' := ''2'', type := Event, name := ''Alicetown Fair''\<rparr>],
              links = [] \<rparr> st0)))
      = \<lparr> nodes = [a\<lparr>id' := ''1'', type := Person, name := ''Alice''\<rparr>], links = [] \<rparr>)"
proof (intro conjI impI)
  show "filteredData lower st =
     spec_searchFilter lower (searchQuery st) (spec_typeFilter (filterByType st) (graphData st))"
    by (rule filteredData_sequential)
  assume "lower ''Alice'' = ''alice''" and "lower ''alice'' = ''alice''"
  then show "filteredData lower
      (setSearchQuery ''alice'' (setFilterByType (Some Person)
         (setGraphData
            \<lparr> nodes = [a\<lparr>id' := ''1'', type := Person, name := ''Alice''\<rparr>,
                        b\<lparr>id' := ''2'', type := Event, name := ''Alicetown Fair''\<rparr>],
              links = [] \<rparr> st0)))
      = \<lparr> nodes = [a\<lparr>id' := ''1'', type := Person, name := ''Alice''\<rparr>], links = [] \<rparr>"
    by (simp add: filteredData_def setSearchQuery_def setFilterByType_def setGraphData_def
        Let_def bothEndpointsIn_iff)
qed

theorem filteredData_composition_witness:
  "asciiLowerCase ''Alice'' = ''alice'' \<and> asciiLowerCase ''alice'' = ''alice'' \<and>
   filterByType aliceState = Some Person \<and> searchQuery aliceState = ''alice'' \<and>
   nodes (graphData aliceState) = [aliceNode, fairNode] \<and>
   filteredData asciiLowerCase aliceState = \<lparr> nodes = [aliceNode], links = [] \<rparr>"
proof -
  have a: "aliceNode\<lparr>id' := ''1'', type := Person, name := ''Alice''\<rparr> = aliceNode"
    by (simp add: aliceNode_def mkNode_def)
  have b: "fairNode\<lparr>id' := ''2'', type := Event, name := ''Alicetown Fair''\<rparr> = fairNode"
    by (simp add: fairNode_def mkNode_def)
  have fields: "filterByType aliceState = Some Person" "searchQuery aliceState = ''alice''"
      "nodes (graphData aliceState) = [aliceNode, fairNode]"
    by (simp_all add: aliceState_def setSearchQuery_def setFilterByType_def setGraphData_def)
  from filteredData_composition [of asciiLowerCase aliceState aliceNode fairNode initialState]
    asciiLower_Alice asciiLower_alice
  have "filteredData asciiLowerCase aliceState = \<lparr> nodes = [aliceNode], links = [] \<rparr>"
    unfolding a b aliceState_def by blast
  with fields asciiLower_Alice asciiLower_alice show ?thesis by simp
qed

text \<open>
  C6. With no type filter and the empty query, the view read after \<open>setGraphData S\<close> is
  \<open>S\<close>: the same nodes and the same links in the same order, whatever the case mapping.
\<close>

theorem setGraphData_roundtrip:
  "filterByType st = None \<Longrightarrow> searchQuery st = [] \<Longrightarrow>
   filteredData lower (setGraphData S st) = S"
  by (simp add: filteredData_def setGraphData_def)

theorem setGraphData_roundtrip_witness:
  "filterByType initialState = None \<and> searchQuery initialState = [] \<and>
   filteredData asciiLowerCase (setGraphData (graphData twoWayState) initialState)
     = graphData twoWayState"
proof -
  have h1: "filterByType initialState = None" and h2: "searchQuery initialState = []"
    by (simp_all add: initialState_def)
  from setGraphData_roundtrip [OF h1 h2] h1 h2 show ?thesis by simp
qed

section \<open>removeLink\<close>

text \<open>
  C8 as stated fails when the two ids are equal: \<open>removeLink a a\<close> removes the self-link
  on \<open>a\<close>, whose normalised pair is also the reversed pair.
\<close>

theorem removeLink_reverse_counterexample:
  "endpointId (source selfLink) = ''a'' \<and> endpointId (target selfLink) = ''a'' \<and>
   selfLink \<in> set (links (graphData selfLinkState)) \<and>
   selfLink \<notin> set (links (graphData (removeLink ''a'' ''a'' selfLinkState)))"
  by (simp add: selfLinkState_links selfLink_ends removeLink_def)

text \<open>
  C8, amended. \<open>removeLink sourceId targetId\<close> removes exactly the links whose normalised
  (source, target) pair is the given ordered pair, the others retained in order; and when
  \<open>sourceId\<close> and \<open>targetId\<close> differ, every link whose normalised pair is the reversed
  one is retained.
\<close>

theorem removeLink_exact:
  "links (graphData (removeLink sourceId targetId st)) =
     seq_without (\<lambda>l. endpointId (source l) = sourceId \<and> endpointId (target l) = targetId)
       (links (graphData st)) \<and>
   (sourceId \<noteq> targetId \<longrightarrow>
      filter (\<lambda>l. endpointId (source l) = targetId \<and> endpointId (target l) = sourceId)
        (links (graphData (removeLink sourceId targetId st))) =
      filter (\<lambda>l. endpointId (source l) = targetId \<and> endpointId (target l) = sourceId)
        (links (graphData st)))"
  by (auto simp: removeLink_def seq_without_filter Let_def intro: filter_cong)

theorem removeLink_exact_witness:
  "''a'' \<noteq> ''b'' \<and>
   links (graphData (removeLink ''a'' ''b'' twoWayState)) = [linkBA] \<and>
   filter (\<lambda>l. endpointId (source l) = ''b'' \<and> endpointId (target l) = ''a'')
     (links (graphData (removeLink ''a'' ''b'' twoWayState))) = [linkBA]"
  using removeLink_exact [of "''a''" "''b''" twoWayState]
  by (simp add: twoWayState_links linkAB_ends linkBA_ends)

section \<open>updateNode\<close>

lemma updateNode_absent:
  assumes "A \<notin> id' ` set (nodes (graphData st))"
  shows "updateNode A u st = st"
proof -
  have "map (\<lambda>n. if id' n = A then spread n u else n) (nodes (graphData st)) = nodes (graphData st)"
    by (rule map_idI) (use assms in auto)
  then show ?thesis by (simp add: updateNode_def)
qed

lemma id_spread: "upd_id u = Some B \<Longrightarrow> id' (spread n u) = B"
  by (simp add: spread_def)

lemma updateNode_no_old_id:
  assumes "upd_id u = Some B" and "B \<noteq> A"
  shows "A \<notin> id' ` set (nodes (graphData (updateNode A u st)))"
  using assms by (auto simp: updateNode_def id_spread)

lemma twoWayState_nodes:
  "nodes (graphData twoWayState) = [mkNode ''a'' ''Ann'' Person, mkNode ''b'' ''Bob'' Person]"
  by (simp add: twoWayState_def addLink_def addNode_def initialState_def)

text \<open>
  C10. \<open>updateNode\<close> does not protect the id.  In a state where exactly one node has id
  \<open>A\<close>, \<open>updateNode A u\<close> with \<open>u.id = B\<close> and \<open>B\<close> different from \<open>A\<close> gives that node
  the id \<open>B\<close> and leaves every other node as it was, so no node has id \<open>A\<close> any more; the
  links are the same as before, so an endpoint stored as the id string \<open>A\<close> names no node
  of the graph; and a following \<open>updateNode A\<close> with any update changes nothing.
\<close>

theorem updateNode_id_unprotected:
  assumes "length (filter (\<lambda>n. id' n = A) (nodes (graphData st))) = 1"
    and "upd_id u = Some B"
    and "B \<noteq> A"
  shows "length (nodes (graphData (updateNode A u st))) = length (nodes (graphData st)) \<and>
         (\<forall>i < length (nodes (graphData st)).
            (if id' (nodes (graphData st) ! i) = A
             then id' (nodes (graphData (updateNode A u st)) ! i) = B
             else nodes (graphData (updateNode A u st)) ! i = nodes (graphData st) ! i)) \<and>
         length (filter (\<lambda>n. id' n = A) (nodes (graphData (updateNode A u st)))) = 0 \<and>
         links (graphData (updateNode A u st)) = links (graphData st) \<and>
         (\<forall>l \<in> set (links (graphData (updateNode A u st))).
            (source l = Id A \<longrightarrow>
               endpointId (source l) \<notin> id' ` set (nodes (graphData (updateNode A u st)))) \<and>
            (target l = Id A \<longrightarrow>
               endpointId (target l) \<notin> id' ` set (nodes (graphData (updateNode A u st))))) \<and>
         updateNode A u' (updateNode A u st) = updateNode A u st"
proof (intro conjI)
  note gone = updateNode_no_old_id [OF assms(2,3), of st]
  show "length (nodes (graphData (updateNode A u st))) = length (nodes (graphData st))"
    by (simp add: updateNode_def)
  show "\<forall>i < length (nodes (graphData st)).
            (if id' (nodes (graphData st) ! i) = A
             then id' (nodes (graphData (updateNode A u st)) ! i) = B
             else nodes (graphData (updateNode A u st)) ! i = nodes (graphData st) ! i)"
    using assms(2) by (simp add: updateNode_def id_spread)
  show "length (filter (\<lambda>n. id' n = A) (nodes (graphData (updateNode A u st)))) = 0"
    using gone by (auto simp: filter_empty_conv)
  show "links (graphData (updateNode A u st)) = links (graphData st)"
    by (simp add: updateNode_def)
  show "\<forall>l \<in> set (links (graphData (updateNode A u st))).
            (source l = Id A \<longrightarrow>
               endpointId (source l) \<notin> id' ` set (nodes (graphData (updateNode A u st)))) \<and>
            (target l = Id A \<longrightarrow>
               endpointId (target l) \<notin> id' ` set (nodes (graphData (updateNode A u st))))"
    using gone by auto
  show "updateNode A u' (updateNode A u st) = updateNode A u st"
    using gone by (rule updateNode_absent)
qed

theorem updateNode_id_unprotected_witness:
  "length (filter (\<lambda>n. id' n = ''a'') (nodes (graphData twoWayState))) = 1 \<and>
   upd_id (renameTo ''c'') = Some ''c'' \<and> ''c'' \<noteq> ''a'' \<and>
   map id' (nodes (graphData (updateNode ''a'' (renameTo ''c'') twoWayState))) = [''c'', ''b''] \<and>
   links (graphData (updateNode ''a'' (renameTo ''c'') twoWayState)) = [linkAB, linkBA] \<and>
   source linkAB = Id ''a'' \<and>
   ''a'' \<notin> id' ` set (nodes (graphData (updateNode ''a'' (renameTo ''c'') twoWayState))) \<and>
   updateNode ''a'' (renameTo ''z'') (updateNode ''a'' (renameTo ''c'') twoWayState)
     = updateNode ''a'' (renameTo ''c'') twoWayState"
proof -
  have h1: "length (filter (\<lambda>n. id' n = ''a'') (nodes (graphData twoWayState))) = 1"
    by (simp add: twoWayState_nodes mkNode_def)
  have h2: "upd_id (renameTo ''c'') = Some ''c''"
    by (simp add: renameTo_def)
  have h3: "''c'' \<noteq> ''a''"
    by simp
  have ids: "map id' (nodes (graphData (updateNode ''a'' (renameTo ''c'') twoWayState))) = [''c'', ''b'']"
    by (simp add: updateNode_def twoWayState_nodes mkNode_def spread_def renameTo_def)
  have src: "source linkAB = Id ''a''"
    by (simp add: linkAB_def mkLink_def)
  have "''a'' \<notin> set (map id' (nodes (graphData (updateNode ''a'' (renameTo ''c'') twoWayState))))"
    unfolding ids by simp
  then have gone: "''a'' \<notin> id' ` set (nodes (graphData (updateNode ''a'' (renameTo ''c'') twoWayState)))"
    by simp
  from updateNode_id_unprotected [OF h1 h2 h3, of "renameTo ''z''"] h1 h2 ids src gone
  show ?thesis
    by (simp add: twoWayState_links)
qed

section \<open>The gateway's de-duplication\<close>

lemma addDbNode_links [simp]:
  "linkList (addDbNode d acc) = linkList acc" "linkSet (addDbNode d acc) = linkSet acc"
  by (simp_all add: addDbNode_def split: option.splits)

lemma namePair_eq_cases:
  "namePair l = {n, m} \<Longrightarrow>
     (endpointId (source l) = n \<and> endpointId (target l) = m) \<or>
     (endpointId (source l) = m \<and> endpointId (target l) = n)"
  unfolding namePair_def by (auto simp: doubleton_eq_iff)

text \<open>A row whose name pair is already joined finds one of its two identity strings.\<close>

lemma joined_pair_blocks:
  assumes inv: "ingest_inv acc"
    and l: "l \<in> set (linkList acc)" "namePair l = {n, m}"
  shows "n @ ''-'' @ m \<in> linkSet acc \<or> m @ ''-'' @ n \<in> linkSet acc"
proof -
  from l(1) inv have "endpointId (source l) @ ''-'' @ endpointId (target l) \<in> linkSet acc"
    unfolding ingest_inv_def by blast
  with namePair_eq_cases [OF l(2)] show ?thesis by auto
qed

lemma addDbLink_inv:
  assumes "ingest_inv acc"
  shows "ingest_inv (addDbLink rc acc)"
proof (cases "rec_r rc")
  case None
  then show ?thesis using assms by (simp add: addDbLink_def)
next
  case (Some rel)
  note r = this
  show ?thesis
  proof (cases "rec_n rc")
    case None
    then show ?thesis using assms r by (simp add: addDbLink_def)
  next
    case (Some dn)
    note n = this
    show ?thesis
    proof (cases "rec_m rc")
      case None
      then show ?thesis using assms r n by (simp add: addDbLink_def)
    next
      case (Some dm)
      note m = this
      show ?thesis
      proof (cases "db_name dn @ ''-'' @ db_name dm \<notin> linkSet acc \<and>
                    db_name dm @ ''-'' @ db_name dn \<notin> linkSet acc")
        case False
        then show ?thesis using assms r n m by (auto simp: addDbLink_def Let_def)
      next
        case True
        have fresh: "{db_name dn, db_name dm} \<notin> namePair ` set (linkList acc)"
        proof
          assume "{db_name dn, db_name dm} \<in> namePair ` set (linkList acc)"
          then obtain l where "l \<in> set (linkList acc)" "namePair l = {db_name dn, db_name dm}"
            by auto
          from joined_pair_blocks [OF assms this] True show False by simp
        qed
        from True r n m have upd: "addDbLink rc acc =
            acc\<lparr>linkList := linkList acc @
                    [\<lparr> source = Id (db_name dn), target = Id (db_name dm),
                       relationship = relationshipOf rel, strength = Some 1, link_color = None \<rparr>],
                linkSet := insert (db_name dn @ ''-'' @ db_name dm) (linkSet acc)\<rparr>"
          by (simp add: addDbLink_def Let_def)
        show ?thesis
          unfolding upd using assms fresh
          by (auto simp: ingest_inv_def namePair_def)
      qed
    qed
  qed
qed

lemma addDbNode_inv: "ingest_inv acc \<Longrightarrow> ingest_inv (addDbNode d acc)"
  by (simp add: ingest_inv_def)

lemma processRecord_inv: "ingest_inv acc \<Longrightarrow> ingest_inv (processRecord rc acc)"
  unfolding processRecord_def by (intro addDbLink_inv addDbNode_inv)

lemma fold_processRecord_inv:
  "ingest_inv acc \<Longrightarrow> ingest_inv (fold processRecord rs acc)"
  by (induction rs arbitrary: acc) (simp_all add: processRecord_inv)

lemma ingest_inv: "ingest_inv (ingest rs)"
  unfolding ingest_def by (rule fold_processRecord_inv) (simp add: ingest_inv_def)

text \<open>
  Once some link joins the names of a row, in either order, processing that row after any
  prefix of the response adds no link.
\<close>

lemma later_row_adds_nothing:
  assumes "l \<in> set (linkList (ingest rs))"
    and "namePair l = {db_name dn, db_name dm}"
    and "rec_n rc = Some dn" and "rec_m rc = Some dm"
  shows "linkList (ingest (rs @ [rc])) = linkList (ingest rs)"
proof -
  have "db_name dn @ ''-'' @ db_name dm \<in> linkSet (ingest rs) \<or>
        db_name dm @ ''-'' @ db_name dn \<in> linkSet (ingest rs)"
    by (rule joined_pair_blocks [OF ingest_inv assms(1,2)])
  then have "linkList (processRecord rc (ingest rs)) = linkList (ingest rs)"
    using assms(3,4)
    by (auto simp: processRecord_def addDbLink_def Let_def split: option.splits)
  then show ?thesis by (simp add: ingest_def)
qed

lemma getGraph_exampleRows:
  "getGraph (Inr (Some exampleRows)) =
     Inr \<lparr> nodes = [toGraphNode dbAnn, toGraphNode dbFair],
           links = [\<lparr> source = Id ''Ann'', target = Id ''Fair'', relationship = ''ATTENDED'',
                      strength = Some 1, link_color = None \<rparr>] \<rparr>"
  by (simp add: getGraph_def exampleRows_def ingest_def processRecord_def addDbNode_def
      addDbLink_def map_has_def map_set_def relationshipOf_def dbAnn_def dbFair_def Let_def)

text \<open>
  C9. Whatever the request returns, \<open>getGraph\<close> returns a snapshot, and the links of that
  snapshot join pairwise different unordered pairs of node names: at most one link per
  pair, in whichever order later rows present it.
\<close>

theorem getGraph_one_link_per_pair:
  "\<exists>g. getGraph response = Inr g \<and> distinct (map namePair (links g))"
proof (cases response)
  case (Inl e)
  then show ?thesis by (simp add: getGraph_def)
next
  case (Inr results)
  have "ingest_inv (case results of Some rs \<Rightarrow> ingest rs | None \<Rightarrow> ingest [])"
    by (simp add: ingest_inv split: option.splits)
  with Inr show ?thesis by (simp add: getGraph_def Let_def ingest_inv_def)
qed

section \<open>Loading\<close>

lemma getGraph_fulfilled: "\<exists>g. getGraph response = Inr g"
  by (cases response) (simp_all add: getGraph_def Let_def)

lemma getGraph_rejected_request: "getGraph (Inl e) = Inr \<lparr> nodes = [], links = [] \<rparr>"
  by (simp add: getGraph_def)

text \<open>
  The call site by itself: a rejected promise is caught, the message is recorded, the flag
  is cleared and the graph is not touched; a fulfilled one replaces the graph.
\<close>

lemma loadGraphData_settled_rejected:
  "loadGraphData_settled (Inl e) st =
     st\<lparr>error := Some ''Failed to load graph data'', isLoading := False\<rparr>"
  by (simp add: loadGraphData_settled_def setLoading_def setError_def)

lemma loadGraphData_settled_fulfilled:
  "loadGraphData_settled (Inr g) st = st\<lparr>graphData := g, isLoading := False\<rparr>"
  by (simp add: loadGraphData_settled_def setLoading_def setGraphData_def)

lemma loadGraphData_isLoading: "isLoading (loadGraphData response st) = False"
  using getGraph_fulfilled [of response]
  by (auto simp: loadGraphData_def loadGraphData_settled_fulfilled)

text \<open>
  With the promise \<open>getGraph\<close> returns, a failed request never reaches the handler: the
  graph is replaced by the empty snapshot and \<open>error\<close> is left as it was.
\<close>

lemma loadGraphData_request_failed:
  "loadGraphData (Inl e) st = st\<lparr>graphData := \<lparr> nodes = [], links = [] \<rparr>, isLoading := False\<rparr>"
  by (simp add: loadGraphData_def getGraph_rejected_request loadGraphData_settled_fulfilled)

text \<open>
  C5, at a failing input.  The store holds two nodes and no error; the request is rejected
  with a network error.  After the load the graph is empty and \<open>error\<close> is still none;
  only \<open>isLoading\<close> is as the claim says.
\<close>

theorem loadGraphData_failure_clears_graph:
  "nodes (graphData twoWayState) \<noteq> [] \<and>
   error twoWayState = None \<and>
   graphData (loadGraphData (Inl (RequestFailed ''Network Error'')) twoWayState)
     = \<lparr> nodes = [], links = [] \<rparr> \<and>
   error (loadGraphData (Inl (RequestFailed ''Network Error'')) twoWayState) = None \<and>
   isLoading (loadGraphData (Inl (RequestFailed ''Network Error'')) twoWayState) = False"
  by (simp add: loadGraphData_request_failed twoWayState_nodes)
    (simp add: twoWayState_def addLink_def addNode_def initialState_def)

end
